theory Spec2Isabelle
  imports Main "HOL-Library.Word"
begin

section \<open>Shared types\<close>

text \<open>
  Go's \<^verbatim>\<open>int\<close> on the 64-bit targets the services are built for: addition and
  multiplication wrap, comparisons are signed.
\<close>

type_synonym go_int = "64 word"

text \<open>
  A Go \<^verbatim>\<open>error\<close> value. \<open>Errorf\<close> carries the message of a \<^verbatim>\<open>fmt.Errorf\<close>
  call of this repository; \<open>ClientError\<close> is an error handed back by an external client
  (the search-index transport). A \<^verbatim>\<open>nil\<close> error is \<open>None\<close> of \<open>error option\<close>.
\<close>

datatype error = Errorf string | ClientError string

section \<open>The in-memory count store (package countstore)\<close>

text \<open>
  The period names \<^verbatim>\<open>PeriodTotal\<close>, \<^verbatim>\<open>PeriodDay\<close> and \<^verbatim>\<open>PeriodHour\<close> are string
  constants declared in another file of the package; the functions below take them as a
  parameter.
\<close>

record periods =
  PeriodTotal :: string
  PeriodDay :: string
  PeriodHour :: string

text \<open>
  One reading of \<^verbatim>\<open>time.Now().UTC()\<close>, as far as \<^verbatim>\<open>PeriodBucket\<close> looks at it:
  its rendering with \<^verbatim>\<open>time.DateOnly\<close> and its rendering with \<^verbatim>\<open>time.RFC3339\<close>.
  The latter has at least 20 bytes, so the slice \<^verbatim>\<open>[0:13]\<close> (date and hour) is always
  in range; it is \<open>take 13\<close> here.
\<close>

record utc_time =
  DateOnly :: string
  RFC3339 :: string

record MemCountStore =
  Counts :: "string \<rightharpoonup> go_int"
  DistinctCounts :: "string \<rightharpoonup> (string \<rightharpoonup> bool)"

definition NewMemCountStore :: MemCountStore where
  "NewMemCountStore = \<lparr>Counts = Map.empty, DistinctCounts = Map.empty\<rparr>"

text \<open>
  \<^verbatim>\<open>PeriodBucket(name, val, period)\<close>; \<open>now\<close> is what \<^verbatim>\<open>time.Now()\<close> returns when
  the day or the hour branch reads the clock. The \<^verbatim>\<open>switch\<close> takes the first case that
  matches; the default case logs a warning and builds the same key as the total case.
\<close>

definition PeriodBucket :: "periods \<Rightarrow> utc_time \<Rightarrow> string \<Rightarrow> string \<Rightarrow> string \<Rightarrow> string" where
  "PeriodBucket P now name val period =
     (if period = PeriodTotal P then name @ ''/'' @ val
      else if period = PeriodDay P then name @ ''/'' @ val @ ''/'' @ DateOnly now
      else if period = PeriodHour P then name @ ''/'' @ val @ ''/'' @ take 13 (RFC3339 now)
      else name @ ''/'' @ val)"

definition GetCount ::
  "periods \<Rightarrow> utc_time \<Rightarrow> MemCountStore \<Rightarrow> string \<Rightarrow> string \<Rightarrow> string \<Rightarrow> go_int \<times> error option" where
  "GetCount P now s name val period =
     (case Counts s (PeriodBucket P now name val period) of
        None \<Rightarrow> (0, None)
      | Some v \<Rightarrow> (v, None))"

text \<open>
  The loops of \<^verbatim>\<open>Increment\<close> and \<^verbatim>\<open>IncrementDistinct\<close> run over the three periods
  in the order total, day, hour; each iteration calls \<^verbatim>\<open>PeriodBucket\<close>, which reads the
  clock on its own. The list pairs every period with the clock reading of its iteration.
  Reading a missing key of a Go map gives the zero value. The maps are reference values, so
  the writes are visible to the caller although the receiver is passed by value: the model
  returns the updated store next to the (always nil) error.
\<close>

type_synonym clock_reads = "utc_time \<times> utc_time \<times> utc_time"

definition period_reads :: "periods \<Rightarrow> clock_reads \<Rightarrow> (string \<times> utc_time) list" where
  "period_reads P clk =
     (case clk of (t1, t2, t3) \<Rightarrow> [(PeriodTotal P, t1), (PeriodDay P, t2), (PeriodHour P, t3)])"

fun Increment_loop ::
  "periods \<Rightarrow> string \<Rightarrow> string \<Rightarrow> (string \<times> utc_time) list \<Rightarrow> MemCountStore \<Rightarrow> MemCountStore" where
  "Increment_loop P name val [] s = s"
| "Increment_loop P name val ((p, now) # ps) s =
     (let k = PeriodBucket P now name val p;
          v = (case Counts s k of None \<Rightarrow> 0 | Some v \<Rightarrow> v);
          v' = v + 1
      in Increment_loop P name val ps (s\<lparr>Counts := (Counts s)(k \<mapsto> v')\<rparr>))"

definition Increment ::
  "periods \<Rightarrow> clock_reads \<Rightarrow> MemCountStore \<Rightarrow> string \<Rightarrow> string \<Rightarrow> MemCountStore \<times> error option" where
  "Increment P clk s name val = (Increment_loop P name val (period_reads P clk) s, None)"

definition GetCountDistinct ::
  "periods \<Rightarrow> utc_time \<Rightarrow> MemCountStore \<Rightarrow> string \<Rightarrow> string \<Rightarrow> string \<Rightarrow> go_int \<times> error option" where
  "GetCountDistinct P now s name bucket period =
     (case DistinctCounts s (PeriodBucket P now name bucket period) of
        None \<Rightarrow> (0, None)
      | Some v \<Rightarrow> (of_nat (card (dom v)), None))"

fun IncrementDistinct_loop ::
  "periods \<Rightarrow> string \<Rightarrow> string \<Rightarrow> string \<Rightarrow> (string \<times> utc_time) list \<Rightarrow> MemCountStore
     \<Rightarrow> MemCountStore" where
  "IncrementDistinct_loop P name bucket val [] s = s"
| "IncrementDistinct_loop P name bucket val ((p, now) # ps) s =
     (let k = PeriodBucket P now name bucket p;
          m = (case DistinctCounts s k of None \<Rightarrow> Map.empty | Some m \<Rightarrow> m);
          m' = m(val \<mapsto> True)
      in IncrementDistinct_loop P name bucket val ps
           (s\<lparr>DistinctCounts := (DistinctCounts s)(k \<mapsto> m')\<rparr>))"

definition IncrementDistinct ::
  "periods \<Rightarrow> clock_reads \<Rightarrow> MemCountStore \<Rightarrow> string \<Rightarrow> string \<Rightarrow> string
     \<Rightarrow> MemCountStore \<times> error option" where
  "IncrementDistinct P clk s name bucket val =
     (IncrementDistinct_loop P name bucket val (period_reads P clk) s, None)"

text \<open>The bucket keys one call of \<^verbatim>\<open>Increment\<close> or \<^verbatim>\<open>IncrementDistinct\<close> writes.\<close>

definition bucket_keys :: "periods \<Rightarrow> clock_reads \<Rightarrow> string \<Rightarrow> string \<Rightarrow> string list" where
  "bucket_keys P clk name val =
     map (\<lambda>(p, now). PeriodBucket P now name val p) (period_reads P clk)"

text \<open>A history of \<^verbatim>\<open>Increment\<close> calls: clock readings, name and value of each call.\<close>

fun Increment_calls ::
  "periods \<Rightarrow> (clock_reads \<times> string \<times> string) list \<Rightarrow> MemCountStore \<Rightarrow> MemCountStore" where
  "Increment_calls P [] s = s"
| "Increment_calls P ((clk, name, val) # cs) s =
     Increment_calls P cs (fst (Increment P clk s name val))"

definition calls_keys :: "periods \<Rightarrow> (clock_reads \<times> string \<times> string) list \<Rightarrow> string list" where
  "calls_keys P cs = concat (map (\<lambda>(clk, name, val). bucket_keys P clk name val) cs)"

text \<open>The period names as the upstream package declares them, for concrete runs.\<close>

definition std_periods :: periods where
  "std_periods = \<lparr>PeriodTotal = ''total'', PeriodDay = ''day'', PeriodHour = ''hour''\<rparr>"

section \<open>The search server (package search)\<close>

subsection \<open>Standard-library functions the server calls\<close>

text \<open>\<^verbatim>\<open>strings.HasPrefix(s, prefix)\<close>.\<close>

definition HasPrefix :: "string \<Rightarrow> string \<Rightarrow> bool" where
  "HasPrefix s pre = (length pre \<le> length s \<and> take (length pre) s = pre)"

text \<open>
  \<^verbatim>\<open>strings.Replace(s, old, new, 1)\<close>: the leftmost occurrence of \<open>old\<close> is replaced
  by \<open>new\<close>; a string without an occurrence is returned as it is; an empty \<open>old\<close>
  matches at the start of the string.
\<close>

fun Replace1 :: "string \<Rightarrow> string \<Rightarrow> string \<Rightarrow> string" where
  "Replace1 [] old new = (if old = [] then new else [])"
| "Replace1 (c # cs) old new =
     (if HasPrefix (c # cs) old then new @ drop (length old) (c # cs)
      else c # Replace1 cs old new)"

subsection \<open>Configuration and server\<close>

datatype logger = JSONStdoutLogger | CustomLogger string

record Config =
  BGSHost :: string
  ProfileIndex :: string
  PostIndex :: string
  Logger :: "logger option"
  BGSSyncRateLimit :: go_int
  IndexMaxConcurrency :: go_int

text \<open>
  The options of package backfill, with the fields \<^verbatim>\<open>NewServer\<close> assigns. The package is
  not among the sources read here, so the value of \<^verbatim>\<open>backfill.DefaultBackfillOptions()\<close>
  is a parameter of \<open>NewServer\<close>.
\<close>

record BackfillOptions =
  ParallelBackfills :: go_int
  ParallelRecordCreates :: go_int
  NSIDFilter :: string
  SyncRequestsPerSecond :: go_int
  CheckoutPath :: string

text \<open>The two record handlers of the server that \<^verbatim>\<open>NewBackfiller\<close> is given.\<close>

datatype handler = handleCreateOrUpdate | handleDelete

record Backfiller =
  Name :: string
  HandleCreateRecord :: handler
  HandleUpdateRecord :: handler
  HandleDeleteRecord :: handler
  Opts :: BackfillOptions

record xrpc_Client =
  Host :: string

record ('db, 'es, 'dir) Server =
  escli :: 'es
  postIndex :: string
  profileIndex :: string
  db :: 'db
  bgshost :: string
  bgsxrpc :: xrpc_Client
  dir :: 'dir
  logger :: logger
  bfs :: 'db
  bf :: Backfiller

text \<open>What \<^verbatim>\<open>NewServer\<close> does besides building its result, in order.\<close>

datatype setup_action =
  LogInfo string | AutoMigrate string | NewGormstore | DefaultBackfillOptions | NewBackfiller string

definition bgs_host_error :: error where
  "bgs_host_error =
     Errorf (''specified bgs host must include '' @ [CHR 0x27] @ ''ws://'' @ [CHR 0x27]
             @ '' or '' @ [CHR 0x27] @ ''wss://'' @ [CHR 0x27])"

definition NewServer ::
  "BackfillOptions \<Rightarrow> 'db \<Rightarrow> 'es \<Rightarrow> 'dir \<Rightarrow> Config
     \<Rightarrow> setup_action list \<times> (error + ('db, 'es, 'dir) Server)" where
  "NewServer dflt db0 escli0 dir0 config =
     (let logger0 = (case Logger config of None \<Rightarrow> JSONStdoutLogger | Some l \<Rightarrow> l);
          migrations = [LogInfo ''running database migrations'',
                        AutoMigrate ''LastSeq'', AutoMigrate ''GormDBJob''];
          bgsws = BGSHost config
      in if \<not> HasPrefix bgsws ''ws'' then (migrations, Inl bgs_host_error)
         else
           let bgshttp = Replace1 bgsws ''ws'' ''http'';
               bgsxrpc0 = \<lparr>Host = bgshttp\<rparr>;
               opts0 = dflt;
               opts1 = (if 0 <s BGSSyncRateLimit config
                        then opts0\<lparr>SyncRequestsPerSecond := BGSSyncRateLimit config,
                                   ParallelBackfills := 2 * BGSSyncRateLimit config\<rparr>
                        else opts0\<lparr>SyncRequestsPerSecond := 8\<rparr>);
               opts2 = opts1\<lparr>CheckoutPath := bgshttp @ ''/xrpc/com.atproto.sync.getRepo''\<rparr>;
               opts3 = (if 0 <s IndexMaxConcurrency config
                        then opts2\<lparr>ParallelRecordCreates := IndexMaxConcurrency config\<rparr>
                        else opts2\<lparr>ParallelRecordCreates := 20\<rparr>);
               opts4 = opts3\<lparr>NSIDFilter := ''app.bsky.''\<rparr>;
               bf0 = \<lparr>Name = ''search'',
                      HandleCreateRecord = handleCreateOrUpdate,
                      HandleUpdateRecord = handleCreateOrUpdate,
                      HandleDeleteRecord = handleDelete,
                      Opts = opts4\<rparr>
           in (migrations @ [NewGormstore, DefaultBackfillOptions, NewBackfiller ''search''],
               Inr \<lparr>escli = escli0, postIndex = PostIndex config,
                    profileIndex = ProfileIndex config, db = db0,
                    bgshost = BGSHost config, bgsxrpc = bgsxrpc0, dir = dir0,
                    logger = logger0, bfs = db0, bf = bf0\<rparr>))"

subsection \<open>Index provisioning\<close>

text \<open>
  The search-index client. A response is looked at for its status code only (the body is
  read and dropped); \<^verbatim>\<open>IsError\<close> of the client library holds for a status above 299.
  The service behind the client is a state \<open>'w\<close>: \<open>Exists\<close> queries it, \<open>Create\<close>
  may change it. Either call gives a transport error or a response.
\<close>

record Response =
  StatusCode :: int

definition IsError :: "Response \<Rightarrow> bool" where
  "IsError resp = (299 < StatusCode resp)"

record 'w es_api =
  Exists :: "'w \<Rightarrow> string list \<Rightarrow> error + Response"
  Create :: "'w \<Rightarrow> string \<Rightarrow> string \<Rightarrow> (error + Response) \<times> 'w"

text \<open>The calls made to the client, with their outcomes.\<close>

datatype es_event =
  ExistsCall "string list" "error + Response"
| CreateCall string string "error + Response"

text \<open>
  The two embedded schema files (\<^verbatim>\<open>post_schema.json\<close>, \<^verbatim>\<open>profile_schema.json\<close>) are
  not among the sources read here; their contents are a parameter.
\<close>

record schemas =
  palomarPostSchemaJSON :: string
  palomarProfileSchemaJSON :: string

text \<open>
  The body of the loop of \<^verbatim>\<open>EnsureIndices\<close> for one index: the error returned from
  inside the loop (\<open>None\<close> when the loop goes on), the state of the service and the calls
  made.
\<close>

definition EnsureIndices_body ::
  "'w es_api \<Rightarrow> string \<times> string \<Rightarrow> 'w \<Rightarrow> error option \<times> 'w \<times> es_event list" where
  "EnsureIndices_body api idx w =
     (case idx of (name, schemaJSON) \<Rightarrow>
        (case Exists api w [name] of
           Inl err \<Rightarrow> (Some err, w, [ExistsCall [name] (Inl err)])
         | Inr resp \<Rightarrow>
             if IsError resp \<and> StatusCode resp \<noteq> 404
             then (Some (Errorf ''failed to check index existence''), w,
                   [ExistsCall [name] (Inr resp)])
             else if StatusCode resp = 404
             then
               (if length schemaJSON < 2
                then (Some (Errorf ''empty schema file (go:embed failed)''), w,
                      [ExistsCall [name] (Inr resp)])
                else
                  (case Create api w name schemaJSON of
                     (Inl err, w') \<Rightarrow>
                       (Some err, w',
                        [ExistsCall [name] (Inr resp), CreateCall name schemaJSON (Inl err)])
                   | (Inr resp2, w') \<Rightarrow>
                       (if IsError resp2 then Some (Errorf ''failed to create index'') else None,
                        w',
                        [ExistsCall [name] (Inr resp), CreateCall name schemaJSON (Inr resp2)])))
             else (None, w, [ExistsCall [name] (Inr resp)])))"

fun EnsureIndices_loop ::
  "'w es_api \<Rightarrow> (string \<times> string) list \<Rightarrow> 'w \<Rightarrow> error option \<times> 'w \<times> es_event list" where
  "EnsureIndices_loop api [] w = (None, w, [])"
| "EnsureIndices_loop api (idx # rest) w =
     (case EnsureIndices_body api idx w of
        (Some err, w', evs) \<Rightarrow> (Some err, w', evs)
      | (None, w', evs) \<Rightarrow>
          (case EnsureIndices_loop api rest w' of
             (res, w'', evs') \<Rightarrow> (res, w'', evs @ evs')))"

definition EnsureIndices ::
  "schemas \<Rightarrow> 'w es_api \<Rightarrow> ('db, 'es, 'dir) Server \<Rightarrow> 'w
     \<Rightarrow> error option \<times> 'w \<times> es_event list" where
  "EnsureIndices S api s w =
     EnsureIndices_loop api
       [(postIndex s, palomarPostSchemaJSON S), (profileIndex s, palomarProfileSchemaJSON S)] w"

text \<open>The create calls among the calls made: index name and schema sent.\<close>

fun create_calls :: "es_event list \<Rightarrow> (string \<times> string) list" where
  "create_calls [] = []"
| "create_calls (ExistsCall names r # evs) = create_calls evs"
| "create_calls (CreateCall name body r # evs) = (name, body) # create_calls evs"

text \<open>The existence check answers with status 404 for the index.\<close>

definition reports_absent :: "'w es_api \<Rightarrow> 'w \<Rightarrow> string \<Rightarrow> bool" where
  "reports_absent api w name =
     (case Exists api w [name] of Inl err \<Rightarrow> False | Inr resp \<Rightarrow> StatusCode resp = 404)"

text \<open>The existence check answers with a status that is no error (at most 299).\<close>

definition reports_present :: "'w es_api \<Rightarrow> 'w \<Rightarrow> string \<Rightarrow> bool" where
  "reports_present api w name =
     (case Exists api w [name] of Inl err \<Rightarrow> False | Inr resp \<Rightarrow> \<not> IsError resp)"

text \<open>
  What the error conditions of provisioning one index are, written out one by one: the
  existence check itself fails; its response is an error status other than 404; the index
  is reported absent and its schema has fewer than two bytes (the test the code makes for
  an empty embedded file); the index is reported absent and the creation call fails or
  answers with an error status.
\<close>

definition provisioning_fails :: "'w es_api \<Rightarrow> string \<times> string \<Rightarrow> 'w \<Rightarrow> bool" where
  "provisioning_fails api idx w =
     (case idx of (name, schemaJSON) \<Rightarrow>
        (case Exists api w [name] of
           Inl err \<Rightarrow> True
         | Inr resp \<Rightarrow>
             (IsError resp \<and> StatusCode resp \<noteq> 404)
           \<or> (StatusCode resp = 404 \<and> length schemaJSON < 2)
           \<or> (StatusCode resp = 404 \<and> 2 \<le> length schemaJSON \<and>
               (case fst (Create api w name schemaJSON) of
                  Inl err \<Rightarrow> True
                | Inr resp2 \<Rightarrow> IsError resp2))))"

text \<open>The state of the service after one index has been handled.\<close>

definition service_after :: "'w es_api \<Rightarrow> string \<times> string \<Rightarrow> 'w \<Rightarrow> 'w" where
  "service_after api idx w =
     (case idx of (name, schemaJSON) \<Rightarrow>
        if reports_absent api w name \<and> 2 \<le> length schemaJSON
        then snd (Create api w name schemaJSON) else w)"

section \<open>The record applier\<close>

text \<open>
  Modelled from the spec: the search index as the index service of the interface section
  describes it, a set of documents whose identity is (repoID, collection, rkey). The index
  client and the documents the server builds are not among the sources read here.
\<close>

type_synonym search_index = "(string \<times> string \<times> string) \<rightharpoonup> string"

text \<open>
  Modelled from the spec: \<^verbatim>\<open>ApplyUpsert(repoID, collection, rkey, payload)\<close>, an
  insert-or-replace of the document with that identity. The handler
  \<^verbatim>\<open>handleCreateOrUpdate\<close> of the server is not among the sources read here.
\<close>

definition ApplyUpsert ::
  "search_index \<Rightarrow> string \<Rightarrow> string \<Rightarrow> string \<Rightarrow> string \<Rightarrow> error + search_index" where
  "ApplyUpsert idx repoID collection rkey payload =
     Inr (idx((repoID, collection, rkey) \<mapsto> payload))"

text \<open>
  Modelled from the spec: \<^verbatim>\<open>ApplyDelete(repoID, collection, rkey)\<close>, the removal of the
  document with that identity. The handler \<^verbatim>\<open>handleDelete\<close> of the server is not among
  the sources read here.
\<close>

definition ApplyDelete ::
  "search_index \<Rightarrow> string \<Rightarrow> string \<Rightarrow> string \<Rightarrow> error + search_index" where
  "ApplyDelete idx repoID collection rkey = Inr (idx((repoID, collection, rkey) := None))"

text \<open>
  Modelled from the spec: an event of the data model, with repository identifier,
  collection, record key and, for a created or updated record, the payload.
\<close>

datatype event =
  RecordCreated string string string string
| RecordUpdated string string string string
| RecordDeleted string string string

text \<open>
  Modelled from the spec: what a handler of the server does when the backfiller calls it.
  The bodies of the two handlers are not among the sources read here.
\<close>

definition run_handler ::
  "handler \<Rightarrow> search_index \<Rightarrow> string \<Rightarrow> string \<Rightarrow> string \<Rightarrow> string option
     \<Rightarrow> error + search_index" where
  "run_handler h idx repoID collection rkey payload =
     (case h of
        handleCreateOrUpdate \<Rightarrow>
          (case payload of
             Some p \<Rightarrow> ApplyUpsert idx repoID collection rkey p
           | None \<Rightarrow> Inr idx)
      | handleDelete \<Rightarrow> ApplyDelete idx repoID collection rkey)"

text \<open>
  Modelled from the spec: the dispatch contract of the record applier. A created record
  goes to the create handler the backfiller was given, an updated one to its update
  handler, a deleted one to its delete handler; package backfill, which makes the calls,
  is not among the sources read here. Which handler sits in which place is what
  \<open>NewServer\<close> above passes to \<^verbatim>\<open>NewBackfiller\<close>.
\<close>

definition apply_event :: "Backfiller \<Rightarrow> search_index \<Rightarrow> event \<Rightarrow> error + search_index" where
  "apply_event b idx ev =
     (case ev of
        RecordCreated r c k p \<Rightarrow> run_handler (HandleCreateRecord b) idx r c k (Some p)
      | RecordUpdated r c k p \<Rightarrow> run_handler (HandleUpdateRecord b) idx r c k (Some p)
      | RecordDeleted r c k \<Rightarrow> run_handler (HandleDeleteRecord b) idx r c k None)"

text \<open>Applying one event twice in a row; an error of the first application ends the run.\<close>

definition apply_twice :: "Backfiller \<Rightarrow> search_index \<Rightarrow> event \<Rightarrow> error + search_index" where
  "apply_twice b idx ev =
     (case apply_event b idx ev of Inl err \<Rightarrow> Inl err | Inr idx1 \<Rightarrow> apply_event b idx1 ev)"

section \<open>The job store\<close>

text \<open>
  Modelled from the spec: the states of a backfill job. Package backfill, which holds the
  job store, is not among the sources read here.
\<close>

datatype job_state = Enqueued | InProgress | Complete | Failed

text \<open>
  Modelled from the spec: the attributes of a backfill job (state, retry count,
  last-attempted timestamp, last error) and the claimant \<^verbatim>\<open>ClaimNext\<close> records. The
  identity of a job, its repository identifier, is the key of the job table.
\<close>

record BackfillJob =
  jstate :: job_state
  retries :: nat
  lastAttempted :: nat
  lastError :: "string option"
  claimedBy :: "string option"

text \<open>
  Modelled from the spec: the options max-retries and lease-timeout of the configuration
  surface, and the backoff a job waits after its n-th failure, which the spec names
  without fixing it.
\<close>

record job_config =
  max_retries :: nat
  lease_timeout :: nat
  backoff :: "nat \<Rightarrow> nat"

text \<open>
  Modelled from the spec: the table of jobs keyed by repository identifier, with the order
  in which the repositories were first enqueued (the order \<^verbatim>\<open>ClaimNext\<close> looks through).
\<close>

record job_store =
  jobs :: "string \<rightharpoonup> BackfillJob"
  queue :: "string list"

text \<open>
  Modelled from the spec: \<^verbatim>\<open>Enqueue(repoID)\<close> inserts a job in state enqueued if none
  exists and is a no-op for a job in any state but complete. The spec does not say what
  happens to a complete job; here it is queued again.
\<close>

definition Enqueue :: "job_store \<Rightarrow> string \<Rightarrow> job_store" where
  "Enqueue st d =
     (case jobs st d of
        None \<Rightarrow>
          st\<lparr>jobs := (jobs st)(d \<mapsto> \<lparr>jstate = Enqueued, retries = 0, lastAttempted = 0,
                                     lastError = None, claimedBy = None\<rparr>),
             queue := queue st @ [d]\<rparr>
      | Some j \<Rightarrow>
          if jstate j = Complete
          then st\<lparr>jobs := (jobs st)(d \<mapsto> j\<lparr>jstate := Enqueued, retries := 0, claimedBy := None\<rparr>)\<rparr>
          else st)"

text \<open>
  Modelled from the spec: the jobs \<^verbatim>\<open>ClaimNext\<close> may select. An enqueued job is
  claimable when it has not failed yet or its backoff is over, a job in progress when its
  lease has timed out; a complete or failed job never is.
\<close>

definition claimable :: "job_config \<Rightarrow> nat \<Rightarrow> BackfillJob \<Rightarrow> bool" where
  "claimable cfg now j =
     (case jstate j of
        Enqueued \<Rightarrow> retries j = 0 \<or> lastAttempted j + backoff cfg (retries j) \<le> now
      | InProgress \<Rightarrow> lastAttempted j + lease_timeout cfg \<le> now
      | Complete \<Rightarrow> False
      | Failed \<Rightarrow> False)"

text \<open>Modelled from the spec: the first claimable job in the order of the queue.\<close>

fun first_claimable ::
  "job_config \<Rightarrow> nat \<Rightarrow> (string \<rightharpoonup> BackfillJob) \<Rightarrow> string list \<Rightarrow> (string \<times> BackfillJob) option" where
  "first_claimable cfg now js [] = None"
| "first_claimable cfg now js (d # ds) =
     (case js d of
        None \<Rightarrow> first_claimable cfg now js ds
      | Some j \<Rightarrow> if claimable cfg now j then Some (d, j) else first_claimable cfg now js ds)"

text \<open>
  Modelled from the spec: \<^verbatim>\<open>ClaimNext(workerID)\<close> selects one claimable job, moves it
  to state in-progress and records the claimant; it gives none when no job is claimable.
\<close>

definition ClaimNext ::
  "job_config \<Rightarrow> nat \<Rightarrow> job_store \<Rightarrow> string \<Rightarrow> (string \<times> BackfillJob) option \<times> job_store" where
  "ClaimNext cfg now st workerID =
     (case first_claimable cfg now (jobs st) (queue st) of
        None \<Rightarrow> (None, st)
      | Some (d, j) \<Rightarrow>
          (let j' = j\<lparr>jstate := InProgress, lastAttempted := now, claimedBy := Some workerID\<rparr>
           in (Some (d, j'), st\<lparr>jobs := (jobs st)(d \<mapsto> j')\<rparr>)))"

text \<open>
  Modelled from the spec: \<^verbatim>\<open>Complete(jobID)\<close> moves a job out of state in-progress to
  state complete. Named \<open>CompleteJob\<close> since \<open>Complete\<close> is the state.
\<close>

definition CompleteJob :: "job_store \<Rightarrow> string \<Rightarrow> job_store" where
  "CompleteJob st d =
     (case jobs st d of
        None \<Rightarrow> st
      | Some j \<Rightarrow>
          if jstate j = InProgress
          then st\<lparr>jobs := (jobs st)(d \<mapsto> j\<lparr>jstate := Complete, claimedBy := None\<rparr>)\<rparr>
          else st)"

text \<open>
  Modelled from the spec: \<^verbatim>\<open>Fail(jobID, error)\<close> moves a job out of state in-progress
  and increments its retry count; when the count exceeds the configured maximum the job
  becomes failed, otherwise it is enqueued again.
\<close>

definition FailJob :: "job_config \<Rightarrow> job_store \<Rightarrow> string \<Rightarrow> string \<Rightarrow> job_store" where
  "FailJob cfg st d err =
     (case jobs st d of
        None \<Rightarrow> st
      | Some j \<Rightarrow>
          if jstate j = InProgress
          then (let n = retries j + 1
                in st\<lparr>jobs := (jobs st)(d \<mapsto>
                       j\<lparr>jstate := (if max_retries cfg < n then Failed else Enqueued),
                         retries := n, lastError := Some err, claimedBy := None\<rparr>)\<rparr>)
          else st)"

text \<open>
  Modelled from the spec: the calls workers and the event path make on the job store.
\<close>

datatype job_op =
  OpEnqueue string
| OpClaimNext nat string
| OpComplete string
| OpFail string string

text \<open>
  Modelled from the spec: a run of such calls; it gives the repositories whose jobs
  \<^verbatim>\<open>ClaimNext\<close> returned, in order, and the final store.
\<close>

fun run_ops :: "job_config \<Rightarrow> job_op list \<Rightarrow> job_store \<Rightarrow> string list \<times> job_store" where
  "run_ops cfg [] st = ([], st)"
| "run_ops cfg (OpEnqueue d # ops) st = run_ops cfg ops (Enqueue st d)"
| "run_ops cfg (OpClaimNext now w # ops) st =
     (case ClaimNext cfg now st w of
        (None, st') \<Rightarrow> run_ops cfg ops st'
      | (Some (d, j), st') \<Rightarrow> (case run_ops cfg ops st' of (ds, st'') \<Rightarrow> (d # ds, st'')))"
| "run_ops cfg (OpComplete d # ops) st = run_ops cfg ops (CompleteJob st d)"
| "run_ops cfg (OpFail d err # ops) st = run_ops cfg ops (FailJob cfg st d err)"

text \<open>Modelled from the spec: the job of the repository is in the terminal failed state.\<close>

definition is_failed :: "job_store \<Rightarrow> string \<Rightarrow> bool" where
  "is_failed st d = (case jobs st d of None \<Rightarrow> False | Some j \<Rightarrow> jstate j = Failed)"

section \<open>Concrete values for runs\<close>

definition reading_10h59 :: utc_time where
  "reading_10h59 = \<lparr>DateOnly = ''2024-01-01'', RFC3339 = ''2024-01-01T10:59:30Z''\<rparr>"

definition reading_11h01 :: utc_time where
  "reading_11h01 = \<lparr>DateOnly = ''2024-01-01'', RFC3339 = ''2024-01-01T11:01:00Z''\<rparr>"

definition opts_example :: BackfillOptions where
  "opts_example =
     \<lparr>ParallelBackfills = 10, ParallelRecordCreates = 100, NSIDFilter = [],
      SyncRequestsPerSecond = 2,
      CheckoutPath = ''https://bsky.network/xrpc/com.atproto.sync.getRepo''\<rparr>"

definition config_example :: "string \<Rightarrow> go_int \<Rightarrow> Config" where
  "config_example host rate =
     \<lparr>BGSHost = host, ProfileIndex = ''palomar_profile'', PostIndex = ''palomar_post'',
      Logger = None, BGSSyncRateLimit = rate, IndexMaxConcurrency = 0\<rparr>"

text \<open>
  A small index service: the state is the list of the indices that exist; an existence
  check answers 200 or 404, a creation 200, or 400 for an index that exists already.
\<close>

definition mem_es :: "string list es_api" where
  "mem_es = \<lparr>
     Exists = (\<lambda>w names. Inr \<lparr>StatusCode = (if set names \<subseteq> set w then 200 else 404)\<rparr>),
     Create = (\<lambda>w name body.
        if name \<in> set w then (Inr \<lparr>StatusCode = 400\<rparr>, w)
        else (Inr \<lparr>StatusCode = 200\<rparr>, name # w))\<rparr>"

definition server_example :: "(unit, unit, unit) Server" where
  "server_example =
     \<lparr>escli = (), postIndex = ''palomar_post'', profileIndex = ''palomar_profile'',
      db = (), bgshost = ''wss://bsky.network'', bgsxrpc = \<lparr>Host = ''https://bsky.network''\<rparr>,
      dir = (), logger = JSONStdoutLogger, bfs = (),
      bf = \<lparr>Name = ''search'', HandleCreateRecord = handleCreateOrUpdate,
             HandleUpdateRecord = handleCreateOrUpdate, HandleDeleteRecord = handleDelete,
             Opts = \<lparr>ParallelBackfills = 10, ParallelRecordCreates = 20,
                     NSIDFilter = ''app.bsky.'', SyncRequestsPerSecond = 8,
                     CheckoutPath = ''https://bsky.network/xrpc/com.atproto.sync.getRepo''\<rparr>\<rparr>\<rparr>"

definition schemas_example :: schemas where
  "schemas_example = \<lparr>palomarPostSchemaJSON = ''{}'', palomarProfileSchemaJSON = ''{ }''\<rparr>"

definition schemas_empty_post :: schemas where
  "schemas_empty_post = \<lparr>palomarPostSchemaJSON = [], palomarProfileSchemaJSON = ''{ }''\<rparr>"

definition job_config_example :: job_config where
  "job_config_example = \<lparr>max_retries = 3, lease_timeout = 60, backoff = (\<lambda>n. 10 * n)\<rparr>"

definition job_store_example :: job_store where
  "job_store_example =
     \<lparr>jobs = [''did:plc:abc'' \<mapsto>
               \<lparr>jstate = InProgress, retries = 3, lastAttempted = 100, lastError = None,
                claimedBy = Some ''worker-1''\<rparr>],
      queue = [''did:plc:abc'']\<rparr>"

section \<open>Properties of the count store\<close>

subsection \<open>Counters\<close>

lemma Counts_Increment_loop_other:
  "k \<notin> set (map (\<lambda>(p, now). PeriodBucket P now name val p) ps) \<Longrightarrow>
   Counts (Increment_loop P name val ps s) k = Counts s k"
  by (induction ps arbitrary: s) (auto simp: Let_def)

lemma Counts_Increment_other:
  "k \<notin> set (bucket_keys P clk name val) \<Longrightarrow>
   Counts (fst (Increment P clk s name val)) k = Counts s k"
  by (simp add: Increment_def bucket_keys_def Counts_Increment_loop_other)

lemma Counts_Increment_calls_other:
  "k \<notin> set (calls_keys P cs) \<Longrightarrow> Counts (Increment_calls P cs s) k = Counts s k"
  by (induction cs arbitrary: s) (auto simp: calls_keys_def Counts_Increment_other)

lemma GetCount_no_counter:
  "Counts s (PeriodBucket P now name val period) = None \<Longrightarrow>
   GetCount P now s name val period = (0, None)"
  by (simp add: GetCount_def)

lemma GetCount_error_nil: "snd (GetCount P now s name val period) = None"
  by (simp add: GetCount_def split: option.splits)

text \<open>
  Claim C10. A counter that no \<^verbatim>\<open>Increment\<close> has written is missing from the map of a
  store that started empty, and \<^verbatim>\<open>GetCount\<close> answers for it with the count 0 and a nil
  error, not with a lookup failure. The key of the counter is the bucket string
  \<^verbatim>\<open>PeriodBucket\<close> builds from name, value and period at the time of the query; the store
  is the one any history of \<^verbatim>\<open>Increment\<close> calls leaves behind, none of which wrote
  that key.
\<close>

theorem GetCount_missing_is_zero:
  assumes "PeriodBucket P now name val period \<notin> set (calls_keys P cs)"
  shows "GetCount P now (Increment_calls P cs NewMemCountStore) name val period = (0, None)"
proof -
  have "Counts (Increment_calls P cs NewMemCountStore) (PeriodBucket P now name val period)
          = Counts NewMemCountStore (PeriodBucket P now name val period)"
    using assms by (rule Counts_Increment_calls_other)
  then have "Counts (Increment_calls P cs NewMemCountStore) (PeriodBucket P now name val period)
          = None"
    by (simp add: NewMemCountStore_def)
  then show ?thesis by (rule GetCount_no_counter)
qed

text \<open>
  A run of it: after one \<^verbatim>\<open>Increment\<close> of (a, b) at 10:59, the hour counter of (a, b)
  queried at 11:01 has never been written, and the count is 0 with a nil error.
\<close>

theorem GetCount_missing_is_zero_witness:
  "PeriodBucket std_periods reading_11h01 ''a'' ''b'' ''hour''
     \<notin> set (calls_keys std_periods
              [((reading_10h59, reading_10h59, reading_10h59), ''a'', ''b'')])
   \<and> GetCount std_periods reading_11h01
        (Increment_calls std_periods
           [((reading_10h59, reading_10h59, reading_10h59), ''a'', ''b'')] NewMemCountStore)
        ''a'' ''b'' ''hour'' = (0, None)"
proof -
  have h: "PeriodBucket std_periods reading_11h01 ''a'' ''b'' ''hour''
     \<notin> set (calls_keys std_periods
              [((reading_10h59, reading_10h59, reading_10h59), ''a'', ''b'')])"
    by (simp add: PeriodBucket_def std_periods_def calls_keys_def bucket_keys_def
        period_reads_def reading_10h59_def reading_11h01_def)
  show ?thesis using h GetCount_missing_is_zero [OF h] by simp
qed

subsection \<open>Distinct counters\<close>

text \<open>The set a distinct counter holds after a value has been recorded in it.\<close>

lemma IncrementDistinct_loop_eq:
  "IncrementDistinct_loop P name bucket val ps s =
     s\<lparr>DistinctCounts := (\<lambda>k.
          if k \<in> set (map (\<lambda>(p, now). PeriodBucket P now name bucket p) ps)
          then Some ((case DistinctCounts s k of None \<Rightarrow> Map.empty | Some m \<Rightarrow> m)(val \<mapsto> True))
          else DistinctCounts s k)\<rparr>"
proof (induction ps arbitrary: s)
  case Nil
  then show ?case by simp
next
  case (Cons a ps)
  obtain p now where a: "a = (p, now)" by (cases a)
  show ?case
    unfolding a IncrementDistinct_loop.simps Let_def Cons.IH
    by (auto simp: fun_eq_iff)
qed

lemma IncrementDistinct_eq:
  "fst (IncrementDistinct P clk s name bucket val) =
     s\<lparr>DistinctCounts := (\<lambda>k.
          if k \<in> set (bucket_keys P clk name bucket)
          then Some ((case DistinctCounts s k of None \<Rightarrow> Map.empty | Some m \<Rightarrow> m)(val \<mapsto> True))
          else DistinctCounts s k)\<rparr>"
  by (simp add: IncrementDistinct_def IncrementDistinct_loop_eq bucket_keys_def)

lemma IncrementDistinct_twice_store:
  assumes "bucket_keys P clk2 name bucket = bucket_keys P clk1 name bucket"
  shows "fst (IncrementDistinct P clk2 (fst (IncrementDistinct P clk1 s name bucket val))
                name bucket val)
       = fst (IncrementDistinct P clk1 s name bucket val)"
  using assms by (simp add: IncrementDistinct_eq fun_eq_iff)

lemma total_key_written:
  "PeriodBucket P now name bucket (PeriodTotal P) \<in> set (bucket_keys P clk name bucket)"
  by (cases clk) (simp add: bucket_keys_def period_reads_def PeriodBucket_def)

lemma IncrementDistinct_twice_total:
  "DistinctCounts (fst (IncrementDistinct P clk2 (fst (IncrementDistinct P clk1 s name bucket val))
                          name bucket val)) (PeriodBucket P now name bucket (PeriodTotal P))
   = DistinctCounts (fst (IncrementDistinct P clk1 s name bucket val))
       (PeriodBucket P now name bucket (PeriodTotal P))"
  using total_key_written[of P now name bucket clk1] total_key_written[of P now name bucket clk2]
  by (simp add: IncrementDistinct_eq)

text \<open>
  Claim C9, as the code has it. \<^verbatim>\<open>IncrementDistinct\<close> records the value as a member
  of a set, so a second call with the same name, bucket and value changes nothing in the
  buckets the first call wrote. The buckets of the day and of the hour are named after the
  clock, which every call reads for itself: for the total period the count after two calls
  is the count after one, whatever the clock says; for every period and every time of
  query it is so when the second call falls into the day and hour buckets of the first
  (then the store itself is the same after two calls as after one).
\<close>

theorem IncrementDistinct_idempotent_same_buckets:
  "GetCountDistinct P now
     (fst (IncrementDistinct P clk2 (fst (IncrementDistinct P clk1 s name bucket val))
             name bucket val)) name bucket (PeriodTotal P)
   = GetCountDistinct P now (fst (IncrementDistinct P clk1 s name bucket val))
       name bucket (PeriodTotal P)
   \<and> (bucket_keys P clk2 name bucket = bucket_keys P clk1 name bucket \<longrightarrow>
        fst (IncrementDistinct P clk2 (fst (IncrementDistinct P clk1 s name bucket val))
               name bucket val)
        = fst (IncrementDistinct P clk1 s name bucket val)
      \<and> GetCountDistinct P now
          (fst (IncrementDistinct P clk2 (fst (IncrementDistinct P clk1 s name bucket val))
                  name bucket val)) name bucket period
        = GetCountDistinct P now (fst (IncrementDistinct P clk1 s name bucket val))
            name bucket period)"
proof (intro conjI impI)
  show "GetCountDistinct P now
     (fst (IncrementDistinct P clk2 (fst (IncrementDistinct P clk1 s name bucket val))
             name bucket val)) name bucket (PeriodTotal P)
   = GetCountDistinct P now (fst (IncrementDistinct P clk1 s name bucket val))
       name bucket (PeriodTotal P)"
    unfolding GetCountDistinct_def IncrementDistinct_twice_total ..
next
  assume k: "bucket_keys P clk2 name bucket = bucket_keys P clk1 name bucket"
  then show st: "fst (IncrementDistinct P clk2 (fst (IncrementDistinct P clk1 s name bucket val))
               name bucket val)
        = fst (IncrementDistinct P clk1 s name bucket val)"
    by (rule IncrementDistinct_twice_store)
  show "GetCountDistinct P now
          (fst (IncrementDistinct P clk2 (fst (IncrementDistinct P clk1 s name bucket val))
                  name bucket val)) name bucket period
        = GetCountDistinct P now (fst (IncrementDistinct P clk1 s name bucket val))
            name bucket period"
    unfolding st ..
qed

text \<open>
  A run of it: two calls at 10:59 with the same arguments, queried for the hour at 10:59,
  count the value once.
\<close>

theorem IncrementDistinct_idempotent_same_buckets_witness:
  "bucket_keys std_periods (reading_10h59, reading_10h59, reading_10h59) ''n'' ''b''
     = bucket_keys std_periods (reading_10h59, reading_10h59, reading_10h59) ''n'' ''b''
   \<and> GetCountDistinct std_periods reading_10h59
       (fst (IncrementDistinct std_periods (reading_10h59, reading_10h59, reading_10h59)
          (fst (IncrementDistinct std_periods (reading_10h59, reading_10h59, reading_10h59)
             NewMemCountStore ''n'' ''b'' ''v'')) ''n'' ''b'' ''v''))
       ''n'' ''b'' ''hour'' = (1, None)"
proof -
  have once: "GetCountDistinct std_periods reading_10h59
       (fst (IncrementDistinct std_periods (reading_10h59, reading_10h59, reading_10h59)
          NewMemCountStore ''n'' ''b'' ''v'')) ''n'' ''b'' ''hour'' = (1, None)"
    by (simp add: GetCountDistinct_def IncrementDistinct_def period_reads_def PeriodBucket_def
        std_periods_def reading_10h59_def NewMemCountStore_def Let_def)
  show ?thesis
    using once
      IncrementDistinct_idempotent_same_buckets
        [of std_periods reading_10h59 "(reading_10h59, reading_10h59, reading_10h59)"
            "(reading_10h59, reading_10h59, reading_10h59)" NewMemCountStore
            "''n''" "''b''" "''v''" "''hour''"]
    by simp
qed

text \<open>
  Claim C9 as stated fails across a change of the hour: a first call at 10:59, a second
  call with the same arguments at 11:01 and a query for the hour at 11:01 give the count 1,
  where the first call alone gives the count 0 at 11:01.
\<close>

theorem IncrementDistinct_twice_differs_across_hours:
  "GetCountDistinct std_periods reading_11h01
     (fst (IncrementDistinct std_periods (reading_11h01, reading_11h01, reading_11h01)
        (fst (IncrementDistinct std_periods (reading_10h59, reading_10h59, reading_10h59)
           NewMemCountStore ''n'' ''b'' ''v'')) ''n'' ''b'' ''v''))
     ''n'' ''b'' ''hour'' = (1, None)
   \<and> GetCountDistinct std_periods reading_11h01
     (fst (IncrementDistinct std_periods (reading_10h59, reading_10h59, reading_10h59)
        NewMemCountStore ''n'' ''b'' ''v''))
     ''n'' ''b'' ''hour'' = (0, None)"
  by (simp add: GetCountDistinct_def IncrementDistinct_def period_reads_def PeriodBucket_def
      std_periods_def reading_10h59_def reading_11h01_def NewMemCountStore_def Let_def)

section \<open>Properties of the search server\<close>

subsection \<open>The relay host\<close>

lemma Replace1_ws: "HasPrefix s ''ws'' \<Longrightarrow> Replace1 s ''ws'' ''http'' = ''http'' @ drop 2 s"
  by (cases s) (auto simp: HasPrefix_def)

text \<open>
  \<open>Replace1\<close> replaces the leftmost occurrence: when \<open>old\<close> stands after \<open>pre\<close> and
  at no earlier position, it is that occurrence that is replaced.
\<close>

lemma Replace1_first:
  "old \<noteq> [] \<Longrightarrow> (\<And>i. i < length pre \<Longrightarrow> \<not> HasPrefix (drop i (pre @ old @ post)) old) \<Longrightarrow>
   Replace1 (pre @ old @ post) old new = pre @ new @ post"
proof (induction pre)
  case Nil
  then show ?case by (cases old) (auto simp: HasPrefix_def)
next
  case (Cons a pre)
  have "\<not> HasPrefix ((a # pre) @ old @ post) old"
    using Cons.prems(2)[of 0] by simp
  moreover have "Replace1 (pre @ old @ post) old new = pre @ new @ post"
  proof (rule Cons.IH[OF Cons.prems(1)])
    fix i assume "i < length pre"
    then show "\<not> HasPrefix (drop i (pre @ old @ post)) old"
      using Cons.prems(2)[of "Suc i"] by simp
  qed
  ultimately show ?case by simp
qed

lemma NewServer_returns_server:
  "HasPrefix (BGSHost config) ''ws'' \<Longrightarrow> \<exists>tr s. NewServer dflt db0 es0 dir0 config = (tr, Inr s)"
  by (simp add: NewServer_def Let_def)

lemma HasPrefix_wss: "HasPrefix (BGSHost (config_example ''wss://bsky.network'' rate)) ''ws''"
  by (simp add: config_example_def HasPrefix_def)

lemma NewServer_example_returns:
  "\<exists>tr s. NewServer opts_example () () () (config_example ''wss://bsky.network'' rate)
            = (tr, Inr s)"
  by (rule NewServer_returns_server[OF HasPrefix_wss])

text \<open>
  Claim C8. For a relay host that does not begin with \<open>ws\<close>, \<^verbatim>\<open>NewServer\<close> returns no
  server but the error, having done nothing beyond the two database migrations that
  precede the test: no job store, no options, no backfiller. For a host that begins with
  \<open>ws\<close> it returns a server whose XRPC client has the host with its first \<open>ws\<close>
  replaced by \<open>http\<close>, which is \<open>http\<close> followed by the host without its first two
  bytes.
\<close>

theorem NewServer_bgs_host:
  "(\<not> HasPrefix (BGSHost config) ''ws'' \<longrightarrow>
      NewServer dflt db0 es0 dir0 config =
        ([LogInfo ''running database migrations'',
          AutoMigrate ''LastSeq'', AutoMigrate ''GormDBJob''],
         Inl bgs_host_error))
   \<and> (HasPrefix (BGSHost config) ''ws'' \<longrightarrow>
      (\<exists>tr s. NewServer dflt db0 es0 dir0 config = (tr, Inr s)
         \<and> Host (bgsxrpc s) = Replace1 (BGSHost config) ''ws'' ''http''
         \<and> Host (bgsxrpc s) = ''http'' @ drop 2 (BGSHost config)))"
  by (simp add: NewServer_def Let_def Replace1_ws)

text \<open>
  Two runs of it: the host \<open>https://bsky.network\<close> is refused after the migrations, the
  host \<open>wss://bsky.network\<close> gives the client host \<open>https://bsky.network\<close>.
\<close>

theorem NewServer_bgs_host_witness:
  "\<not> HasPrefix (BGSHost (config_example ''https://bsky.network'' 4)) ''ws''
   \<and> NewServer opts_example () () () (config_example ''https://bsky.network'' 4) =
        ([LogInfo ''running database migrations'',
          AutoMigrate ''LastSeq'', AutoMigrate ''GormDBJob''],
         Inl bgs_host_error)
   \<and> HasPrefix (BGSHost (config_example ''wss://bsky.network'' 4)) ''ws''
   \<and> (\<exists>tr s. NewServer opts_example () () () (config_example ''wss://bsky.network'' 4) = (tr, Inr s)
         \<and> Host (bgsxrpc s) = ''https://bsky.network'')"
proof -
  have a: "\<not> HasPrefix (BGSHost (config_example ''https://bsky.network'' 4)) ''ws''"
    by (simp add: config_example_def HasPrefix_def)
  have b: "HasPrefix (BGSHost (config_example ''wss://bsky.network'' 4)) ''ws''"
    by (rule HasPrefix_wss)
  have c: "''http'' @ drop 2 (BGSHost (config_example ''wss://bsky.network'' 4))
             = ''https://bsky.network''"
    by (simp add: config_example_def)
  show ?thesis
    using a b c
      NewServer_bgs_host [of "config_example ''https://bsky.network'' 4" opts_example "()" "()" "()"]
      NewServer_bgs_host [of "config_example ''wss://bsky.network'' 4" opts_example "()" "()" "()"]
    by auto
qed

subsection \<open>The backfill options\<close>

text \<open>
  Claim C4. In the server \<^verbatim>\<open>NewServer\<close> returns, a positive sync rate limit r of the
  configuration is the number of sync requests per second of the backfiller, and the size
  of the worker pool is derived from it as 2 * r (in the arithmetic of Go's int); without
  a positive limit the rate is 8 requests per second, and the size of the pool is the one
  of the default options of package backfill.
\<close>

theorem NewServer_sync_rate:
  assumes "NewServer dflt db0 es0 dir0 config = (tr, Inr s)"
  shows "(0 <s BGSSyncRateLimit config \<longrightarrow>
            SyncRequestsPerSecond (Opts (bf s)) = BGSSyncRateLimit config
          \<and> ParallelBackfills (Opts (bf s)) = 2 * BGSSyncRateLimit config)
       \<and> (\<not> 0 <s BGSSyncRateLimit config \<longrightarrow>
            SyncRequestsPerSecond (Opts (bf s)) = 8
          \<and> ParallelBackfills (Opts (bf s)) = ParallelBackfills dflt)"
  using assms by (auto simp: NewServer_def Let_def split: if_splits)

text \<open>
  Two runs of it: a limit of 4 gives 4 requests per second and 8 workers; a limit of 0
  gives 8 requests per second and the 10 workers of the default options.
\<close>

theorem NewServer_sync_rate_witness:
  "(\<exists>tr s. NewServer opts_example () () () (config_example ''wss://bsky.network'' 4) = (tr, Inr s)
      \<and> SyncRequestsPerSecond (Opts (bf s)) = 4 \<and> ParallelBackfills (Opts (bf s)) = 8)
   \<and> (\<exists>tr s. NewServer opts_example () () () (config_example ''wss://bsky.network'' 0) = (tr, Inr s)
      \<and> SyncRequestsPerSecond (Opts (bf s)) = 8 \<and> ParallelBackfills (Opts (bf s)) = 10)"
proof -
  obtain tr4 s4 where
    n4: "NewServer opts_example () () () (config_example ''wss://bsky.network'' 4) = (tr4, Inr s4)"
    using NewServer_example_returns by blast
  obtain tr0 s0 where
    n0: "NewServer opts_example () () () (config_example ''wss://bsky.network'' 0) = (tr0, Inr s0)"
    using NewServer_example_returns by blast
  have r4: "BGSSyncRateLimit (config_example ''wss://bsky.network'' 4) = 4"
    and r0: "BGSSyncRateLimit (config_example ''wss://bsky.network'' 0) = 0"
    by (simp_all add: config_example_def)
  have p4: "(0::64 word) <s 4" by (simp add: word_sless_alt)
  have p0: "\<not> (0::64 word) <s 0" by simp
  have d: "ParallelBackfills opts_example = 10" by (simp add: opts_example_def)
  have "SyncRequestsPerSecond (Opts (bf s4)) = 4 \<and> ParallelBackfills (Opts (bf s4)) = 8"
    using NewServer_sync_rate [OF n4] p4 by (simp add: r4)
  moreover have "SyncRequestsPerSecond (Opts (bf s0)) = 8 \<and> ParallelBackfills (Opts (bf s0)) = 10"
    using NewServer_sync_rate [OF n0] p0 by (simp add: r0 d)
  ultimately show ?thesis using n4 n0 by blast
qed

text \<open>
  Claim C5, as the code has it. The record \<^verbatim>\<open>Config\<close> has no field for the namespace
  filter, and \<^verbatim>\<open>NewServer\<close> assigns the constant \<open>app.bsky.\<close> to the option after
  everything it takes from the configuration: whatever the configuration and the default
  options are, the filter of the server it returns is \<open>app.bsky.\<close>.
\<close>

theorem NewServer_NSIDFilter_fixed:
  assumes "NewServer dflt db0 es0 dir0 config = (tr, Inr s)"
  shows "NSIDFilter (Opts (bf s)) = ''app.bsky.''"
  using assms by (auto simp: NewServer_def Let_def split: if_splits)

theorem NewServer_NSIDFilter_fixed_witness:
  "\<exists>tr s. NewServer opts_example () () () (config_example ''wss://bsky.network'' 4) = (tr, Inr s)
     \<and> NSIDFilter (Opts (bf s)) = ''app.bsky.''"
proof -
  obtain tr s where
    n: "NewServer opts_example () () () (config_example ''wss://bsky.network'' 4) = (tr, Inr s)"
    using NewServer_example_returns by blast
  from NewServer_NSIDFilter_fixed [OF n] n show ?thesis by blast
qed

text \<open>
  Claim C5 as stated fails: no configuration makes \<^verbatim>\<open>NewServer\<close> return a server that
  filters on another prefix, \<open>com.example.\<close> say.
\<close>

theorem NSIDFilter_not_configurable:
  "\<not> (\<exists>config tr s. NewServer opts_example () () () config = (tr, Inr s)
         \<and> NSIDFilter (Opts (bf s)) = ''com.example.'')"
proof
  assume "\<exists>config tr s. NewServer opts_example () () () config = (tr, Inr s)
         \<and> NSIDFilter (Opts (bf s)) = ''com.example.''"
  then obtain config tr s where
    h: "NewServer opts_example () () () config = (tr, Inr s)"
    and f: "NSIDFilter (Opts (bf s)) = ''com.example.''" by blast
  from h have "NSIDFilter (Opts (bf s)) = ''app.bsky.''"
    by (auto simp: NewServer_def Let_def split: if_splits)
  with f show False by simp
qed

subsection \<open>Index provisioning\<close>

lemma body_create_calls:
  "create_calls (snd (snd (EnsureIndices_body api (name, sch) w))) =
     (if reports_absent api w name \<and> 2 \<le> length sch then [(name, sch)] else [])"
  by (auto simp: EnsureIndices_body_def reports_absent_def IsError_def
      split: sum.splits prod.splits)

lemma body_service_after:
  "fst (snd (EnsureIndices_body api idx w)) = service_after api idx w"
  by (cases idx)
    (auto simp: EnsureIndices_body_def service_after_def reports_absent_def IsError_def
      split: sum.splits prod.splits)

lemma body_fails_iff:
  "(fst (EnsureIndices_body api idx w) \<noteq> None) = provisioning_fails api idx w"
  by (cases idx)
    (auto simp: EnsureIndices_body_def provisioning_fails_def IsError_def
      split: sum.splits prod.splits)

lemma body_present:
  "reports_present api w name \<Longrightarrow>
   EnsureIndices_body api (name, sch) w = (None, w, [ExistsCall [name] (Exists api w [name])])"
  by (auto simp: EnsureIndices_body_def reports_present_def IsError_def split: sum.splits)

lemma create_calls_append: "create_calls (xs @ ys) = create_calls xs @ create_calls ys"
  by (induction xs rule: create_calls.induct) auto

lemma loop_two:
  "EnsureIndices_body api i1 w = (r1, w1, e1) \<Longrightarrow>
   EnsureIndices_body api i2 w1 = (r2, w2, e2) \<Longrightarrow>
   EnsureIndices_loop api [i1, i2] w =
     (case r1 of Some err \<Rightarrow> (Some err, w1, e1) | None \<Rightarrow> (r2, w2, e1 @ e2))"
  by (cases r1; cases r2) simp_all

text \<open>
  Claim C1, as the code has it. The create calls \<^verbatim>\<open>EnsureIndices\<close> makes are: one for
  the post index, with the post schema, if and only if its existence check answers 404
  and the schema has at least two bytes; then, if the post index was handled without an
  error, one for the profile index, with the profile schema, if and only if its existence
  check (made after the post index was handled) answers 404 and the schema has at least
  two bytes. When the existence checks report both indices present, no create call is
  made, the service is left as it was, and a repeated call does the same again.
\<close>

theorem EnsureIndices_create_calls:
  "create_calls (snd (snd (EnsureIndices S api s w))) =
     (if reports_absent api w (postIndex s) \<and> 2 \<le> length (palomarPostSchemaJSON S)
      then [(postIndex s, palomarPostSchemaJSON S)] else []) @
     (case EnsureIndices_body api (postIndex s, palomarPostSchemaJSON S) w of
        (Some err, w1, evs) \<Rightarrow> []
      | (None, w1, evs) \<Rightarrow>
          if reports_absent api w1 (profileIndex s) \<and> 2 \<le> length (palomarProfileSchemaJSON S)
          then [(profileIndex s, palomarProfileSchemaJSON S)] else [])
   \<and> (reports_present api w (postIndex s) \<and> reports_present api w (profileIndex s) \<longrightarrow>
        EnsureIndices S api s w =
          (None, w, [ExistsCall [postIndex s] (Exists api w [postIndex s]),
                     ExistsCall [profileIndex s] (Exists api w [profileIndex s])])
      \<and> EnsureIndices S api s (fst (snd (EnsureIndices S api s w))) = EnsureIndices S api s w)"
proof (intro conjI impI)
  obtain r1 w1 evs1 where
    b1: "EnsureIndices_body api (postIndex s, palomarPostSchemaJSON S) w = (r1, w1, evs1)"
    by (cases "EnsureIndices_body api (postIndex s, palomarPostSchemaJSON S) w") auto
  obtain r2 w2 evs2 where
    b2: "EnsureIndices_body api (profileIndex s, palomarProfileSchemaJSON S) w1 = (r2, w2, evs2)"
    by (cases "EnsureIndices_body api (profileIndex s, palomarProfileSchemaJSON S) w1") auto
  have c1: "create_calls evs1 =
      (if reports_absent api w (postIndex s) \<and> 2 \<le> length (palomarPostSchemaJSON S)
       then [(postIndex s, palomarPostSchemaJSON S)] else [])"
    using body_create_calls[of api "postIndex s" "palomarPostSchemaJSON S" w] b1 by simp
  have c2: "create_calls evs2 =
      (if reports_absent api w1 (profileIndex s) \<and> 2 \<le> length (palomarProfileSchemaJSON S)
       then [(profileIndex s, palomarProfileSchemaJSON S)] else [])"
    using body_create_calls[of api "profileIndex s" "palomarProfileSchemaJSON S" w1] b2 by simp
  show "create_calls (snd (snd (EnsureIndices S api s w))) =
     (if reports_absent api w (postIndex s) \<and> 2 \<le> length (palomarPostSchemaJSON S)
      then [(postIndex s, palomarPostSchemaJSON S)] else []) @
     (case EnsureIndices_body api (postIndex s, palomarPostSchemaJSON S) w of
        (Some err, w1, evs) \<Rightarrow> []
      | (None, w1, evs) \<Rightarrow>
          if reports_absent api w1 (profileIndex s) \<and> 2 \<le> length (palomarProfileSchemaJSON S)
          then [(profileIndex s, palomarProfileSchemaJSON S)] else [])"
    unfolding EnsureIndices_def loop_two[OF b1 b2] b1
    by (cases r1) (simp_all add: c1 c2 create_calls_append)
next
  assume p: "reports_present api w (postIndex s) \<and> reports_present api w (profileIndex s)"
  then show e: "EnsureIndices S api s w =
          (None, w, [ExistsCall [postIndex s] (Exists api w [postIndex s]),
                     ExistsCall [profileIndex s] (Exists api w [profileIndex s])])"
    by (simp add: EnsureIndices_def body_present)
  show "EnsureIndices S api s (fst (snd (EnsureIndices S api s w))) = EnsureIndices S api s w"
    by (simp add: e)
qed

lemma mem_es_present:
  "reports_present mem_es [''palomar_profile'', ''palomar_post''] ''palomar_post''"
  "reports_present mem_es [''palomar_profile'', ''palomar_post''] ''palomar_profile''"
  by (simp_all add: reports_present_def mem_es_def IsError_def)

text \<open>
  A run of it: against a service that has both indices, \<^verbatim>\<open>EnsureIndices\<close> makes the two
  existence checks, no create call, and leaves the service as it was.
\<close>

theorem EnsureIndices_create_calls_witness:
  "reports_present mem_es [''palomar_profile'', ''palomar_post''] (postIndex server_example)
   \<and> reports_present mem_es [''palomar_profile'', ''palomar_post''] (profileIndex server_example)
   \<and> EnsureIndices schemas_example mem_es server_example [''palomar_profile'', ''palomar_post'']
       = (None, [''palomar_profile'', ''palomar_post''],
          [ExistsCall [''palomar_post''] (Inr \<lparr>StatusCode = 200\<rparr>),
           ExistsCall [''palomar_profile''] (Inr \<lparr>StatusCode = 200\<rparr>)])"
proof -
  have names: "postIndex server_example = ''palomar_post''"
    "profileIndex server_example = ''palomar_profile''"
    by (simp_all add: server_example_def)
  have ex: "Exists mem_es [''palomar_profile'', ''palomar_post''] [''palomar_post'']
              = Inr \<lparr>StatusCode = 200\<rparr>"
    "Exists mem_es [''palomar_profile'', ''palomar_post''] [''palomar_profile'']
              = Inr \<lparr>StatusCode = 200\<rparr>"
    by (simp_all add: mem_es_def)
  show ?thesis
    using mem_es_present
      EnsureIndices_create_calls
        [of schemas_example mem_es server_example "[''palomar_profile'', ''palomar_post'']"]
    by (simp add: names ex)
qed

text \<open>
  Claim C1 as stated fails when the embedded post schema is empty: against a service
  without indices the existence check of the post index answers 404, and no create call
  is made (the guard against an empty schema file returns the error first).
\<close>

theorem EnsureIndices_absent_without_create:
  "reports_absent mem_es [] (postIndex server_example)
   \<and> create_calls (snd (snd (EnsureIndices schemas_empty_post mem_es server_example []))) = []
   \<and> EnsureIndices schemas_empty_post mem_es server_example []
       = (Some (Errorf ''empty schema file (go:embed failed)''), [],
          [ExistsCall [''palomar_post''] (Inr \<lparr>StatusCode = 404\<rparr>)])"
  by (simp add: reports_absent_def mem_es_def server_example_def schemas_empty_post_def
      EnsureIndices_def EnsureIndices_body_def IsError_def)

text \<open>
  Claim C7, as the code has it. \<^verbatim>\<open>EnsureIndices\<close> returns an error exactly when
  provisioning fails for the post index or, the post index handled, for the profile
  index, where provisioning an index fails when its existence check itself fails, when
  the response is an error status other than 404, when the index is reported absent and
  its embedded schema has fewer than two bytes, or when the index is reported absent and
  the creation call fails or returns an error status. In every other case the result is
  nil.
\<close>

theorem EnsureIndices_error_iff:
  "(fst (EnsureIndices S api s w) \<noteq> None) =
     (provisioning_fails api (postIndex s, palomarPostSchemaJSON S) w
      \<or> provisioning_fails api (profileIndex s, palomarProfileSchemaJSON S)
           (service_after api (postIndex s, palomarPostSchemaJSON S) w))"
proof -
  obtain r1 w1 evs1 where
    b1: "EnsureIndices_body api (postIndex s, palomarPostSchemaJSON S) w = (r1, w1, evs1)"
    by (cases "EnsureIndices_body api (postIndex s, palomarPostSchemaJSON S) w") auto
  obtain r2 w2 evs2 where
    b2: "EnsureIndices_body api (profileIndex s, palomarProfileSchemaJSON S) w1 = (r2, w2, evs2)"
    by (cases "EnsureIndices_body api (profileIndex s, palomarProfileSchemaJSON S) w1") auto
  have f1: "(r1 \<noteq> None) = provisioning_fails api (postIndex s, palomarPostSchemaJSON S) w"
    using body_fails_iff[of api "(postIndex s, palomarPostSchemaJSON S)" w] b1 by simp
  have w1: "w1 = service_after api (postIndex s, palomarPostSchemaJSON S) w"
    using body_service_after[of api "(postIndex s, palomarPostSchemaJSON S)" w] b1 by simp
  have f2: "(r2 \<noteq> None) = provisioning_fails api (profileIndex s, palomarProfileSchemaJSON S) w1"
    using body_fails_iff[of api "(profileIndex s, palomarProfileSchemaJSON S)" w1] b2 by simp
  show ?thesis
    unfolding EnsureIndices_def loop_two[OF b1 b2]
    using f1 f2 w1 by (cases r1) auto
qed

text \<open>
  Claim C7 as stated fails when the embedded post schema is empty and both indices exist:
  the schema is never looked at, and \<^verbatim>\<open>EnsureIndices\<close> returns nil.
\<close>

theorem EnsureIndices_empty_schema_no_error:
  "palomarPostSchemaJSON schemas_empty_post = []
   \<and> EnsureIndices schemas_empty_post mem_es server_example [''palomar_profile'', ''palomar_post'']
       = (None, [''palomar_profile'', ''palomar_post''],
          [ExistsCall [''palomar_post''] (Inr \<lparr>StatusCode = 200\<rparr>),
           ExistsCall [''palomar_profile''] (Inr \<lparr>StatusCode = 200\<rparr>)])"
  by (simp add: mem_es_def server_example_def schemas_empty_post_def
      EnsureIndices_def EnsureIndices_body_def IsError_def)

section \<open>Properties of the record applier\<close>

lemma NewServer_handlers:
  "NewServer dflt db0 es0 dir0 config = (tr, Inr s) \<Longrightarrow>
   HandleCreateRecord (bf s) = handleCreateOrUpdate \<and>
   HandleUpdateRecord (bf s) = handleCreateOrUpdate \<and>
   HandleDeleteRecord (bf s) = handleDelete"
  by (auto simp: NewServer_def Let_def split: if_splits)

lemma ApplyUpsert_twice:
  "ApplyUpsert idx r c k p = Inr idx1 \<Longrightarrow> ApplyUpsert idx1 r c k p = Inr idx1"
  by (auto simp: ApplyUpsert_def)

lemma ApplyDelete_absent: "idx (r, c, k) = None \<Longrightarrow> ApplyDelete idx r c k = Inr idx"
  by (simp add: ApplyDelete_def fun_eq_iff)

text \<open>
  Claim C2. Through the record-apply path of a server \<^verbatim>\<open>NewServer\<close> returns (created and
  updated records go to the create-or-update handler, deleted ones to the delete handler),
  applying the same upsert twice succeeds and gives exactly the index that applying it
  once gives, for every repository identifier, collection, record key and payload; and
  applying a delete for a record that is not in the index succeeds and leaves the index
  as it is.
\<close>

theorem record_apply_idempotent:
  assumes "NewServer dflt db0 es0 dir0 config = (tr, Inr s)"
  shows "apply_twice (bf s) idx (RecordCreated r c k p) = apply_event (bf s) idx (RecordCreated r c k p)
       \<and> apply_twice (bf s) idx (RecordUpdated r c k p) = apply_event (bf s) idx (RecordUpdated r c k p)
       \<and> (\<exists>idx1. apply_event (bf s) idx (RecordCreated r c k p) = Inr idx1)
       \<and> (\<exists>idx1. apply_event (bf s) idx (RecordUpdated r c k p) = Inr idx1)
       \<and> (idx (r, c, k) = None \<longrightarrow> apply_event (bf s) idx (RecordDeleted r c k) = Inr idx)"
proof -
  from NewServer_handlers[OF assms]
  have h: "HandleCreateRecord (bf s) = handleCreateOrUpdate"
    "HandleUpdateRecord (bf s) = handleCreateOrUpdate"
    "HandleDeleteRecord (bf s) = handleDelete" by auto
  obtain idx1 where u: "ApplyUpsert idx r c k p = Inr idx1"
    by (simp add: ApplyUpsert_def)
  note u2 = ApplyUpsert_twice[OF u]
  show ?thesis
    using u u2 by (simp add: apply_twice_def apply_event_def run_handler_def h
        ApplyDelete_absent)
qed

text \<open>
  A run of it: on the empty index, the delete of a post of \<open>did:plc:abc\<close> succeeds and
  leaves the index empty, and the upsert of the post applied twice gives the index with
  that one document.
\<close>

theorem record_apply_idempotent_witness:
  "\<exists>tr s. NewServer opts_example () () () (config_example ''wss://bsky.network'' 4) = (tr, Inr s)
     \<and> Map.empty (''did:plc:abc'', ''app.bsky.feed.post'', ''1'') = (None :: string option)
     \<and> apply_event (bf s) Map.empty (RecordDeleted ''did:plc:abc'' ''app.bsky.feed.post'' ''1'')
         = Inr Map.empty
     \<and> apply_twice (bf s) Map.empty
         (RecordCreated ''did:plc:abc'' ''app.bsky.feed.post'' ''1'' ''hello'')
         = Inr [(''did:plc:abc'', ''app.bsky.feed.post'', ''1'') \<mapsto> ''hello'']"
proof -
  obtain tr s where
    n: "NewServer opts_example () () () (config_example ''wss://bsky.network'' 4) = (tr, Inr s)"
    using NewServer_example_returns by blast
  have e: "Map.empty (''did:plc:abc'', ''app.bsky.feed.post'', ''1'') = (None :: string option)"
    by simp
  have once: "apply_event (bf s) Map.empty
         (RecordCreated ''did:plc:abc'' ''app.bsky.feed.post'' ''1'' ''hello'')
         = Inr [(''did:plc:abc'', ''app.bsky.feed.post'', ''1'') \<mapsto> ''hello'']"
    using NewServer_handlers[OF n]
    by (simp add: apply_event_def run_handler_def ApplyUpsert_def)
  from record_apply_idempotent [OF n, of Map.empty "''did:plc:abc''" "''app.bsky.feed.post''"
      "''1''" "''hello''"] e once n
  show ?thesis by auto
qed

section \<open>Properties of the job store\<close>

lemma first_claimable_claimable:
  "first_claimable cfg now js ds = Some (d, j) \<Longrightarrow> js d = Some j \<and> claimable cfg now j"
  by (induction ds) (auto split: option.splits if_splits)

lemma failed_not_claimable: "jstate j = Failed \<Longrightarrow> \<not> claimable cfg now j"
  by (simp add: claimable_def)

lemma Enqueue_failed: "is_failed st d \<Longrightarrow> is_failed (Enqueue st d') d"
  by (auto simp: is_failed_def Enqueue_def split: option.splits)

lemma Complete_failed: "is_failed st d \<Longrightarrow> is_failed (CompleteJob st d') d"
  by (auto simp: is_failed_def CompleteJob_def split: option.splits)

lemma Fail_failed: "is_failed st d \<Longrightarrow> is_failed (FailJob cfg st d' err) d"
  by (auto simp: is_failed_def FailJob_def Let_def split: option.splits)

lemma ClaimNext_failed:
  assumes "is_failed st d"
  shows "is_failed (snd (ClaimNext cfg now st w)) d \<and>
         (\<forall>j. fst (ClaimNext cfg now st w) \<noteq> Some (d, j))"
proof (cases "first_claimable cfg now (jobs st) (queue st)")
  case None
  then show ?thesis using assms by (simp add: ClaimNext_def)
next
  case (Some a)
  obtain d' j' where a: "a = (d', j')" by (cases a)
  from first_claimable_claimable[OF Some[unfolded a]]
  have j': "jobs st d' = Some j'" "claimable cfg now j'" by auto
  have "d' \<noteq> d" using assms j' failed_not_claimable[of j' cfg now]
    by (auto simp: is_failed_def)
  then show ?thesis using assms Some a
    by (auto simp: ClaimNext_def is_failed_def Let_def)
qed

lemma run_ops_claim:
  "run_ops cfg (OpClaimNext now w # ops) st =
     ((case fst (ClaimNext cfg now st w) of None \<Rightarrow> [] | Some (d, j) \<Rightarrow> [d])
        @ fst (run_ops cfg ops (snd (ClaimNext cfg now st w))),
      snd (run_ops cfg ops (snd (ClaimNext cfg now st w))))"
  by (simp split: prod.splits option.splits)

text \<open>A failed job stays failed through every run, and no claim of the run returns it.\<close>

lemma run_ops_failed:
  "is_failed st d \<Longrightarrow>
   d \<notin> set (fst (run_ops cfg ops st)) \<and> is_failed (snd (run_ops cfg ops st)) d"
proof (induction ops arbitrary: st)
  case Nil
  then show ?case by simp
next
  case (Cons op ops)
  show ?case
  proof (cases op)
    case (OpEnqueue d')
    have "is_failed (Enqueue st d') d" using Cons.prems by (rule Enqueue_failed)
    from Cons.IH[OF this] show ?thesis by (simp add: OpEnqueue)
  next
    case (OpClaimNext now w)
    from ClaimNext_failed[OF Cons.prems, of cfg now w]
    have f: "is_failed (snd (ClaimNext cfg now st w)) d"
      and n: "\<And>j. fst (ClaimNext cfg now st w) \<noteq> Some (d, j)" by auto
    have "d \<notin> set (case fst (ClaimNext cfg now st w) of None \<Rightarrow> [] | Some (d, j) \<Rightarrow> [d])"
      using n by (cases "fst (ClaimNext cfg now st w)") auto
    with Cons.IH[OF f] show ?thesis
      unfolding OpClaimNext run_ops_claim by simp
  next
    case (OpComplete d')
    have "is_failed (CompleteJob st d') d" using Cons.prems by (rule Complete_failed)
    from Cons.IH[OF this] show ?thesis by (simp add: OpComplete)
  next
    case (OpFail d' err)
    have "is_failed (FailJob cfg st d' err) d" using Cons.prems by (rule Fail_failed)
    from Cons.IH[OF this] show ?thesis by (simp add: OpFail)
  qed
qed

text \<open>
  Claim C6. When a job in progress fails and its retry count thereby exceeds the
  configured maximum, \<^verbatim>\<open>Fail\<close> moves it to the terminal failed state; and through every
  later run of calls on the job store (enqueues, claims by any worker at any time,
  completions, failures) the job stays failed and no \<^verbatim>\<open>ClaimNext\<close> returns it.
\<close>

theorem exhausted_job_terminal:
  assumes "jobs st d = Some j" and "jstate j = InProgress" and "max_retries cfg < retries j + 1"
  shows "is_failed (FailJob cfg st d err) d
       \<and> d \<notin> set (fst (run_ops cfg ops (FailJob cfg st d err)))
       \<and> is_failed (snd (run_ops cfg ops (FailJob cfg st d err))) d"
proof -
  have f: "is_failed (FailJob cfg st d err) d"
    using assms by (simp add: FailJob_def is_failed_def Let_def)
  with run_ops_failed[OF f, of cfg ops] show ?thesis by simp
qed

text \<open>
  A run of it: with at most 3 retries, the job of \<open>did:plc:abc\<close>, in progress after 3
  failures, fails a fourth time; it is then failed, and an enqueue of the repository
  followed by claims of two workers does not bring it back.
\<close>

theorem exhausted_job_terminal_witness:
  "jobs job_store_example ''did:plc:abc'' =
     Some \<lparr>jstate = InProgress, retries = 3, lastAttempted = 100, lastError = None,
           claimedBy = Some ''worker-1''\<rparr>
   \<and> max_retries job_config_example < 3 + 1
   \<and> is_failed (FailJob job_config_example job_store_example ''did:plc:abc'' ''fetch failed'')
       ''did:plc:abc''
   \<and> ''did:plc:abc'' \<notin> set (fst (run_ops job_config_example
         [OpEnqueue ''did:plc:abc'', OpClaimNext 1000 ''worker-2'', OpClaimNext 5000 ''worker-3'']
         (FailJob job_config_example job_store_example ''did:plc:abc'' ''fetch failed'')))"
proof -
  have a: "jobs job_store_example ''did:plc:abc'' =
     Some \<lparr>jstate = InProgress, retries = 3, lastAttempted = 100, lastError = None,
           claimedBy = Some ''worker-1''\<rparr>"
    by (simp add: job_store_example_def)
  have b: "jstate \<lparr>jstate = InProgress, retries = 3, lastAttempted = 100, lastError = None,
           claimedBy = Some ''worker-1''\<rparr> = InProgress" by simp
  have c: "max_retries job_config_example
         < retries \<lparr>jstate = InProgress, retries = 3, lastAttempted = 100, lastError = None,
           claimedBy = Some ''worker-1''\<rparr> + 1"
    by (simp add: job_config_example_def)
  from exhausted_job_terminal [OF a b c, of "''fetch failed''"
      "[OpEnqueue ''did:plc:abc'', OpClaimNext 1000 ''worker-2'', OpClaimNext 5000 ''worker-3'']"]
    a c
  show ?thesis by simp
qed

end
